theory Spec2Isabelle
  imports Complex_Main "HOL-Library.Log_Nat" "HOL-Library.Sublist"
begin

section \<open>Data model\<close>

text \<open>
  The quiz catalogue (\<^verbatim>\<open>data.json\<close>, typed by \<^verbatim>\<open>types.ts\<close>) is a list of quizzes; a quiz
  has a title, an icon and a list of questions; a question has its text, its options and
  the one correct answer. The fields are named as the code reads them
  (\<^verbatim>\<open>quiz.questions\<close>, \<^verbatim>\<open>question.answer\<close>).
\<close>

record Question =
  question :: string
  options :: "string list"
  answer :: string

record Quiz =
  title :: string
  icon :: string
  questions :: "Question list"

text \<open>
  Modelled from the spec: the type \<^verbatim>\<open>QuizState\<close> of \<^verbatim>\<open>types.ts\<close>. The application assigns
  the values "menu", "question" and "result"; the spec records a fourth value that no
  transition assigns.
\<close>

datatype QuizState = St_menu | St_question | St_result | St_completed

text \<open>
  An element of a JavaScript array of strings: \<open>Some a\<close> is the string \<open>a\<close>, \<open>None\<close> is
  \<^verbatim>\<open>undefined\<close> (a hole left by a write beyond the end of the array).
\<close>

type_synonym answers = "string option list"

text \<open>
  The state of \<^verbatim>\<open>App\<close>: the seven values held by \<^verbatim>\<open>useLocalStorage\<close>, and the queue of
  callbacks handed to \<^verbatim>\<open>setTimeout\<close> that have not run yet. Every callback has the same
  delay of 1500 ms, so they run in the order they were scheduled; a callback is the
  value of \<^verbatim>\<open>currentQuestionIndex\<close> its closure captured.
\<close>

record App =
  currentState :: QuizState
  selectedQuiz :: "Quiz option"
  isDark :: bool
  currentQuestionIndex :: int
  selectedAnswers :: answers
  userAnswers :: answers
  showFeedback :: bool
  timers :: "int list"

definition initial :: App where
  "initial = \<lparr> currentState = St_menu, selectedQuiz = None, isDark = True,
     currentQuestionIndex = 0, selectedAnswers = [], userAnswers = [],
     showFeedback = False, timers = [] \<rparr>"

section \<open>Transitions of the session\<close>

definition handleQuizSelect :: "Quiz \<Rightarrow> App \<Rightarrow> App" where
  "handleQuizSelect quiz s =
     s\<lparr> selectedQuiz := Some quiz,
        currentQuestionIndex := 0,
        selectedAnswers := replicate (length (questions quiz)) (Some ''''),
        userAnswers := [],
        showFeedback := False,
        currentState := St_question \<rparr>"

text \<open>
  \<^verbatim>\<open>newSelectedAnswers[currentQuestionIndex] = answer\<close> on a copy of the array: inside the
  array the element is replaced; at or beyond its end the array grows, the positions in
  between being holes; a negative index names no element, and the elements stay as
  they are.
\<close>

definition array_set :: "answers \<Rightarrow> int \<Rightarrow> string \<Rightarrow> answers" where
  "array_set xs i a =
     (if i < 0 then xs
      else if nat i < length xs then xs[nat i := Some a]
      else xs @ replicate (nat i - length xs) None @ [Some a])"

definition handleAnswerSelect :: "string \<Rightarrow> App \<Rightarrow> App" where
  "handleAnswerSelect a s =
     s\<lparr> selectedAnswers := array_set (selectedAnswers s) (currentQuestionIndex s) a \<rparr>"

text \<open>\<^verbatim>\<open>selectedQuiz?.questions.length || 0\<close>: the number of questions, 0 without a quiz.\<close>

definition questionCount :: "Quiz option \<Rightarrow> int" where
  "questionCount sq = (case sq of None \<Rightarrow> 0 | Some quiz \<Rightarrow> int (length (questions quiz)))"

definition handleNext :: "App \<Rightarrow> App" where
  "handleNext s =
     (if currentQuestionIndex s < questionCount (selectedQuiz s) - 1
      then s\<lparr> showFeedback := True, timers := timers s @ [currentQuestionIndex s] \<rparr>
      else s\<lparr> userAnswers := selectedAnswers s, currentState := St_result \<rparr>)"

text \<open>The body of the callback given to \<^verbatim>\<open>setTimeout\<close>, for the captured index \<open>c\<close>.\<close>

definition timeoutCallback :: "int \<Rightarrow> App \<Rightarrow> App" where
  "timeoutCallback c s = s\<lparr> currentQuestionIndex := c + 1, showFeedback := False \<rparr>"

text \<open>The oldest pending timer elapses: it leaves the queue and its callback runs.\<close>

definition timerElapsed :: "App \<Rightarrow> App" where
  "timerElapsed s =
     (case timers s of
        [] \<Rightarrow> s
      | c # cs \<Rightarrow> timeoutCallback c (s\<lparr> timers := cs \<rparr>))"

definition handlePrevious :: "App \<Rightarrow> App" where
  "handlePrevious s =
     (if currentQuestionIndex s > 0
      then s\<lparr> currentQuestionIndex := currentQuestionIndex s - 1 \<rparr>
      else s)"

definition handleBackToMenu :: "App \<Rightarrow> App" where
  "handleBackToMenu s =
     s\<lparr> currentState := St_menu,
        selectedQuiz := None,
        currentQuestionIndex := 0,
        selectedAnswers := [],
        userAnswers := [],
        showFeedback := False \<rparr>"

definition toggleTheme :: "App \<Rightarrow> App" where
  "toggleTheme s = s\<lparr> isDark := \<not> isDark s \<rparr>"

text \<open>What can happen to the application: a call of one handler, or a timer elapsing.\<close>

datatype event =
    SelectQuiz Quiz
  | SelectAnswer string
  | Next
  | Previous
  | BackToMenu
  | ToggleTheme
  | TimerElapsed

fun step :: "event \<Rightarrow> App \<Rightarrow> App" where
  "step (SelectQuiz quiz) s = handleQuizSelect quiz s"
| "step (SelectAnswer a) s = handleAnswerSelect a s"
| "step Next s = handleNext s"
| "step Previous s = handlePrevious s"
| "step BackToMenu s = handleBackToMenu s"
| "step ToggleTheme s = toggleTheme s"
| "step TimerElapsed s = timerElapsed s"

fun run :: "event list \<Rightarrow> App \<Rightarrow> App" where
  "run [] s = s"
| "run (e # es) s = run es (step e s)"

text \<open>
  The invariant of the data model: on the question screen there is a quiz and the index
  names one of its questions.
\<close>

definition session_inv :: "App \<Rightarrow> bool" where
  "session_inv s =
     (if currentState s = St_question
      then (case selectedQuiz s of
              None \<Rightarrow> False
            | Some quiz \<Rightarrow> 0 \<le> currentQuestionIndex s
                \<and> currentQuestionIndex s < int (length (questions quiz)))
      else True)"

text \<open>
  What every run keeps when all the quizzes it selects have \<open>n\<close> questions: the index is
  not negative, a pending timer holds an index with a successor below \<open>n\<close>, the active
  quiz has \<open>n\<close> questions, and on the question screen there is a quiz and the index is
  below \<open>n\<close>.
\<close>

definition run_inv :: "int \<Rightarrow> App \<Rightarrow> bool" where
  "run_inv n s \<longleftrightarrow>
     0 \<le> currentQuestionIndex s
     \<and> (\<forall>c \<in> set (timers s). 0 \<le> c \<and> c + 1 < n)
     \<and> (\<forall>quiz. selectedQuiz s = Some quiz \<longrightarrow> int (length (questions quiz)) = n)
     \<and> (currentState s = St_question \<longrightarrow> selectedQuiz s \<noteq> None \<and> currentQuestionIndex s < n)"

definition selects_length :: "int \<Rightarrow> event \<Rightarrow> bool" where
  "selects_length n e = (case e of SelectQuiz quiz \<Rightarrow> int (length (questions quiz)) = n | _ \<Rightarrow> True)"

section \<open>Reading the durable store\<close>

text \<open>
  The initialiser of \<^verbatim>\<open>useLocalStorage\<close>. \<^verbatim>\<open>window.localStorage.getItem\<close> and
  \<^verbatim>\<open>JSON.parse\<close> belong to the platform and are parameters: \<open>getItem\<close> throws, or
  returns \<^verbatim>\<open>null\<close> (\<open>None\<close>) or the stored string; \<open>parse\<close> throws or returns the
  parsed value.
\<close>

datatype storage_error = SecurityError | SyntaxError

text \<open>The body of the \<^verbatim>\<open>try\<close> block: \<^verbatim>\<open>item ? JSON.parse(item) : initialValue\<close>.\<close>

definition readItem ::
  "(string \<Rightarrow> storage_error + 'v) \<Rightarrow> (string \<Rightarrow> storage_error + string option)
     \<Rightarrow> string \<Rightarrow> 'v \<Rightarrow> storage_error + 'v" where
  "readItem parse getItem key initialValue =
     (case getItem key of
        Inl err \<Rightarrow> Inl err
      | Inr None \<Rightarrow> Inr initialValue
      | Inr (Some item) \<Rightarrow> if item = [] then Inr initialValue else parse item)"

definition try_catch :: "storage_error + 'v \<Rightarrow> (storage_error \<Rightarrow> storage_error + 'v)
     \<Rightarrow> storage_error + 'v" where
  "try_catch body handler = (case body of Inl err \<Rightarrow> handler err | Inr v \<Rightarrow> Inr v)"

text \<open>The \<^verbatim>\<open>catch\<close> block warns on the console and returns \<^verbatim>\<open>initialValue\<close>.\<close>

definition useLocalStorage_init ::
  "(string \<Rightarrow> storage_error + 'v) \<Rightarrow> (string \<Rightarrow> storage_error + string option)
     \<Rightarrow> string \<Rightarrow> 'v \<Rightarrow> storage_error + 'v" where
  "useLocalStorage_init parse getItem key initialValue =
     try_catch (readItem parse getItem key initialValue) (\<lambda>err. Inr initialValue)"

text \<open>A store and a parser for booleans, to run the read on.\<close>

definition sample_getItem :: "string \<Rightarrow> storage_error + string option" where
  "sample_getItem key =
     (if key = ''quiz-theme'' then Inr (Some ''{tru'')
      else if key = ''quiz-show-feedback'' then Inr (Some ''true'')
      else Inr None)"

definition sample_parse :: "string \<Rightarrow> storage_error + bool" where
  "sample_parse item =
     (if item = ''true'' then Inr True
      else if item = ''false'' then Inr False
      else Inl SyntaxError)"

section \<open>Numbers of the results screen\<close>

text \<open>
  The results screen computes \<^verbatim>\<open>Math.round((score / totalQuestions) * 100)\<close> on
  JavaScript numbers, which are IEEE 754 doubles. Both operands of the division are
  array lengths or counts below them, so they are integers below \<open>2 ^ 32\<close> and exact as
  doubles. A number is \<open>NaN\<close>, positive infinity or a finite value, held as the
  rational it denotes; the quotient of two such integers and its product with 100 lie
  between \<open>2 ^ -32\<close> and \<open>101\<close> when they are not 0, far inside the range of normal
  doubles, so the exponent is not bounded here.
\<close>

datatype jsnum = NaN | PosInf | Fin rat

text \<open>
  Rounding to the nearest double, ties to the even significand: for \<open>0 < r\<close> the
  exponent \<open>e\<close> puts \<open>r / 2 ^ e\<close> between \<open>2 ^ 52\<close> and \<open>2 ^ 53\<close>, and the 53-bit
  significand is that scaled value rounded to an integer. The scoring never produces a
  negative number, and 0 is a double.
\<close>

definition exponent_of :: "rat \<Rightarrow> int" where
  "exponent_of r =
     (let (a, b) = quotient_of r; d = bitlen a - bitlen b
      in if r < 2 powi d then d - 53 else d - 52)"

definition nearest_even :: "rat \<Rightarrow> int" where
  "nearest_even m =
     (let n = \<lfloor>m\<rfloor>; f = m - of_int n
      in if f < 1 / 2 then n else if 1 / 2 < f then n + 1
         else if even n then n else n + 1)"

definition round53 :: "rat \<Rightarrow> rat" where
  "round53 r =
     (if r \<le> 0 then 0
      else let e = exponent_of r in of_int (nearest_even (r / 2 powi e)) * 2 powi e)"

text \<open>\<^verbatim>\<open>a / b\<close> for two non-negative integers: \<open>0 / 0\<close> is \<open>NaN\<close>, nothing is thrown.\<close>

definition js_divide :: "nat \<Rightarrow> nat \<Rightarrow> jsnum" where
  "js_divide a b =
     (if b = 0 then (if a = 0 then NaN else PosInf)
      else Fin (round53 (of_nat a / of_nat b)))"

definition js_times100 :: "jsnum \<Rightarrow> jsnum" where
  "js_times100 x = (case x of NaN \<Rightarrow> NaN | PosInf \<Rightarrow> PosInf | Fin r \<Rightarrow> Fin (round53 (r * 100)))"

text \<open>\<^verbatim>\<open>Math.round\<close>: the nearest integer, a half going up.\<close>

definition Math_round :: "jsnum \<Rightarrow> jsnum" where
  "Math_round x = (case x of NaN \<Rightarrow> NaN | PosInf \<Rightarrow> PosInf | Fin r \<Rightarrow> Fin (of_int \<lfloor>r + 1 / 2\<rfloor>))"

section \<open>Scoring\<close>

text \<open>\<^verbatim>\<open>userAnswers[index]\<close>: beyond the end of the array the read gives \<^verbatim>\<open>undefined\<close>.\<close>

definition array_get :: "answers \<Rightarrow> nat \<Rightarrow> string option" where
  "array_get xs i = (if i < length xs then xs ! i else None)"

text \<open>
  The \<^verbatim>\<open>forEach\<close> loop of \<^verbatim>\<open>calculateScore\<close> over the questions, with its running
  index and the counter \<^verbatim>\<open>correct\<close>; \<^verbatim>\<open>===\<close> holds only between equal strings.
\<close>

fun forEach_count :: "Question list \<Rightarrow> nat \<Rightarrow> answers \<Rightarrow> nat \<Rightarrow> nat" where
  "forEach_count [] index ua correct = correct"
| "forEach_count (q # qs) index ua correct =
     forEach_count qs (index + 1) ua
       (if array_get ua index = Some (answer q) then correct + 1 else correct)"

text \<open>The prop \<^verbatim>\<open>quiz\<close> has type \<^verbatim>\<open>Quiz\<close>, so \<^verbatim>\<open>!quiz\<close> is false.\<close>

definition calculateScore :: "Quiz \<Rightarrow> answers \<Rightarrow> nat" where
  "calculateScore quiz ua =
     (if length ua = 0 then 0 else forEach_count (questions quiz) 0 ua 0)"

definition totalQuestions :: "Quiz \<Rightarrow> nat" where
  "totalQuestions quiz = length (questions quiz)"

definition percentage :: "Quiz \<Rightarrow> answers \<Rightarrow> jsnum" where
  "percentage quiz ua =
     Math_round (js_times100 (js_divide (calculateScore quiz ua) (totalQuestions quiz)))"

section \<open>Sample data\<close>

text \<open>Two quizzes of different lengths, to run the transitions on.\<close>

definition q_B :: Question where
  "q_B = \<lparr> question = ''Q'', options = [''A'', ''B'', ''C'', ''D''], answer = ''B'' \<rparr>"

definition quiz_two :: Quiz where
  "quiz_two = \<lparr> title = ''HTML'', icon = ''html'', questions = [q_B, q_B] \<rparr>"

definition quiz_one :: Quiz where
  "quiz_one = \<lparr> title = ''CSS'', icon = ''css'', questions = [q_B] \<rparr>"


text \<open>A quiz of forty questions and answers of which the first 23 are right.\<close>

definition quiz_forty :: Quiz where
  "quiz_forty = \<lparr> title = ''JavaScript'', icon = ''js'', questions = replicate 40 q_B \<rparr>"

definition answers_23 :: answers where
  "answers_23 = replicate 23 (Some ''B'') @ replicate 17 (Some ''A'')"

definition quiz_empty :: Quiz where
  "quiz_empty = \<lparr> title = ''Accessibility'', icon = ''a11y'', questions = [] \<rparr>"

section \<open>Double-precision rounding\<close>

lemma nearest_even_err: "\<bar>of_int (nearest_even m) - m\<bar> \<le> 1 / 2"
proof -
  have "of_int \<lfloor>m\<rfloor> \<le> m" "m < of_int \<lfloor>m\<rfloor> + 1" by linarith+
  then show ?thesis
    by (auto simp: nearest_even_def Let_def)
qed

lemma bitlen_powi_bounds:
  assumes "0 < a"
  shows "(2::rat) powi (bitlen a - 1) \<le> of_int a" and "of_int a < (2::rat) powi (bitlen a)"
proof -
  from bitlen_bounds [OF assms]
  have lo: "2 ^ nat (bitlen a - 1) \<le> a" and hi: "a < 2 ^ nat (bitlen a)" by simp_all
  have ge1: "1 \<le> bitlen a" using assms by (simp add: bitlen_alt_def)
  have "(2::rat) powi (bitlen a - 1) = of_int (2 ^ nat (bitlen a - 1))"
    using ge1 by (simp add: power_int_def)
  also have "\<dots> \<le> of_int a" using lo by (simp only: of_int_le_iff)
  finally show "(2::rat) powi (bitlen a - 1) \<le> of_int a" .
  have "(of_int a :: rat) < of_int (2 ^ nat (bitlen a))" using hi by (simp only: of_int_less_iff)
  also have "\<dots> = (2::rat) powi (bitlen a)"
    using ge1 by (simp add: power_int_def)
  finally show "of_int a < (2::rat) powi (bitlen a)" .
qed

lemma exponent_of_bounds:
  assumes "0 < r"
  shows "2 ^ 52 \<le> r / 2 powi (exponent_of r)" and "r / 2 powi (exponent_of r) < 2 ^ 53"
proof -
  obtain a b where ab: "quotient_of r = (a, b)" by (cases "quotient_of r")
  then have b: "0 < b" and r: "r = of_int a / of_int b"
    by (simp_all add: quotient_of_denom_pos quotient_of_div)
  with assms have a: "0 < a" by (simp add: zero_less_divide_iff)
  define d where "d = bitlen a - bitlen b"
  have pos: "\<And>k. (0::rat) < 2 powi k" by simp
  have "2 powi (d - 1) * of_int b < (2::rat) powi (d - 1) * 2 powi (bitlen b)"
    using bitlen_powi_bounds(2) [OF b] pos by (simp only: mult_less_cancel_left_pos)
  also have "\<dots> = 2 powi (bitlen a - 1)"
    by (simp add: d_def power_int_add [symmetric])
  also have "\<dots> \<le> of_int a" by (rule bitlen_powi_bounds(1) [OF a])
  finally have lo: "2 powi (d - 1) < r"
    using b by (simp add: r pos_less_divide_eq)
  have "of_int a < (2::rat) powi (bitlen a)" by (rule bitlen_powi_bounds(2) [OF a])
  also have "\<dots> = 2 powi (d + 1) * 2 powi (bitlen b - 1)"
    by (simp add: d_def power_int_add [symmetric])
  also have "\<dots> \<le> 2 powi (d + 1) * of_int b"
    using bitlen_powi_bounds(1) [OF b] pos by (simp only: mult_le_cancel_left_pos)
  finally have hi: "r < 2 powi (d + 1)"
    using b by (simp add: r pos_divide_less_eq)
  have e: "exponent_of r = (if r < 2 powi d then d - 53 else d - 52)"
    by (simp add: exponent_of_def ab d_def Let_def)
  have split: "\<And>k j. (2::rat) powi k / 2 powi j = 2 powi (k - j)"
    by (simp add: power_int_diff)
  have p52: "(2::rat) powi 52 = 2 ^ 52" and p53: "(2::rat) powi 53 = 2 ^ 53"
    by (simp_all add: power_int_def)
  show "2 ^ 52 \<le> r / 2 powi (exponent_of r)"
  proof (cases "r < 2 powi d")
    case True
    have "(2::rat) ^ 52 = 2 powi (d - 1) / 2 powi (d - 53)"
      by (simp add: split p52)
    also have "\<dots> \<le> r / 2 powi (d - 53)"
      by (rule divide_right_mono) (use lo pos [of "d - 53"] in \<open>simp_all only: less_imp_le\<close>)
    finally show ?thesis using True by (simp add: e)
  next
    case False
    have "(2::rat) ^ 52 = 2 powi d / 2 powi (d - 52)"
      by (simp add: split p52)
    also have "\<dots> \<le> r / 2 powi (d - 52)"
      by (rule divide_right_mono) (use False pos [of "d - 52"] in \<open>simp_all only: less_imp_le not_less\<close>)
    finally show ?thesis using False by (simp add: e)
  qed
  show "r / 2 powi (exponent_of r) < 2 ^ 53"
  proof (cases "r < 2 powi d")
    case True
    then have "r / 2 powi (d - 53) < 2 powi d / 2 powi (d - 53)"
      by (rule divide_strict_right_mono) (rule pos)
    also have "\<dots> = 2 ^ 53" by (simp add: split p53)
    finally show ?thesis using True by (simp add: e)
  next
    case False
    have "r / 2 powi (d - 52) < 2 powi (d + 1) / 2 powi (d - 52)"
      using hi by (rule divide_strict_right_mono) (rule pos)
    also have "\<dots> = 2 ^ 53" by (simp add: split p53)
    finally show ?thesis using False by (simp add: e)
  qed
qed

lemma round53_err:
  assumes "0 < r"
  shows "\<bar>round53 r - r\<bar> \<le> r / 2 ^ 53"
proof -
  define e where "e = exponent_of r"
  define m where "m = r / 2 powi e"
  have pe: "(0::rat) < 2 powi e" by simp
  have r: "r = m * 2 powi e" by (simp add: m_def)
  have m52: "2 ^ 52 \<le> m" unfolding m_def e_def by (rule exponent_of_bounds(1) [OF assms])
  have rnd: "round53 r = of_int (nearest_even m) * 2 powi e"
    using assms by (simp add: round53_def Let_def e_def m_def)
  have "m * 2 powi e = r" by (simp add: m_def)
  then have "round53 r - r = (of_int (nearest_even m) - m) * 2 powi e"
    by (simp only: rnd left_diff_distrib)
  then have "\<bar>round53 r - r\<bar> = \<bar>of_int (nearest_even m) - m\<bar> * 2 powi e"
    using pe by (simp only: abs_mult abs_of_pos)
  also have "\<dots> \<le> 1 / 2 * 2 powi e"
    using nearest_even_err [of m] pe by (simp only: mult_le_cancel_right_pos)
  also have "\<dots> \<le> 1 / 2 * (m / 2 ^ 52 * 2 powi e)"
  proof -
    have "1 \<le> m / 2 ^ 52" using m52 by simp
    then have "1 * 2 powi e \<le> m / 2 ^ 52 * 2 powi e"
      using pe by (simp only: mult_le_cancel_right_pos)
    then show ?thesis by simp
  qed
  also have "\<dots> = r / 2 ^ 53" by (simp add: r)
  finally show ?thesis .
qed

lemma round53_zero: "round53 0 = 0"
  by (simp add: round53_def)

lemma rel_err_bounds:
  fixes a b :: rat
  assumes "\<bar>a - b\<bar> \<le> b / 2 ^ 53" and "0 < b"
  shows "0 < a" and "a \<le> b + b / 2 ^ 53" and "b - b / 2 ^ 53 \<le> a"
proof -
  from assms(1) have "a - b \<le> b / 2 ^ 53" and "- (b / 2 ^ 53) \<le> a - b"
    by (simp_all only: abs_le_iff minus_diff_eq) linarith
  then show "a \<le> b + b / 2 ^ 53" and lo: "b - b / 2 ^ 53 \<le> a" by linarith+
  have "b / 2 ^ 53 < b" using assms(2) by simp
  with lo show "0 < a" by linarith
qed

lemma product_close:
  assumes "0 < t" and "s \<le> t"
  shows "\<bar>round53 (round53 (of_nat s / of_nat t) * 100) - 100 * of_nat s / of_nat t\<bar> \<le> 1 / 2 ^ 45"
proof (cases "s = 0")
  case True
  then show ?thesis by (simp add: round53_zero)
next
  case False
  define q :: rat where "q = of_nat s / of_nat t"
  define x1 where "x1 = round53 q"
  define x where "x = round53 (x1 * 100)"
  have q0: "0 < q" using False assms by (simp add: q_def)
  have q1: "q \<le> 1" using assms by (simp add: q_def)
  have e1: "\<bar>x1 - q\<bar> \<le> q / 2 ^ 53" unfolding x1_def by (rule round53_err [OF q0])
  note b1 = rel_err_bounds [OF e1 q0]
  have x1pos: "0 < x1 * 100" using b1(1) by simp
  have e2: "\<bar>x - x1 * 100\<bar> \<le> x1 * 100 / 2 ^ 53" unfolding x_def by (rule round53_err [OF x1pos])
  note b2 = rel_err_bounds [OF e2 x1pos]
  have "x - 100 * q \<le> 1 / 2 ^ 45"
    using b1(2) b2(2) q0 q1 by simp
  moreover have "- (x - 100 * q) \<le> 1 / 2 ^ 45"
    using b1(3) b2(3) q0 q1 by simp
  ultimately have "\<bar>x - 100 * q\<bar> \<le> 1 / 2 ^ 45"
    by (rule abs_leI)
  then show ?thesis by (simp add: x_def x1_def q_def)
qed

lemma forEach_count_card:
  "forEach_count qs k ua c =
     c + card {i. i < length qs \<and> array_get ua (k + i) = Some (answer (qs ! i))}"
proof (induction qs arbitrary: k c)
  case Nil
  then show ?case by simp
next
  case (Cons q qs)
  let ?P = "\<lambda>i. array_get ua (k + i) = Some (answer ((q # qs) ! i))"
  let ?A = "{i. i < length qs \<and> array_get ua (Suc k + i) = Some (answer (qs ! i))}"
  have fin: "finite ?A" by simp
  have set_eq: "{i. i < length (q # qs) \<and> ?P i} = (if ?P 0 then {0} else {}) \<union> Suc ` ?A"
    by (auto simp: less_Suc_eq_0_disj image_iff)
  have "card {i. i < length (q # qs) \<and> ?P i} = (if ?P 0 then 1 else 0) + card ?A"
    unfolding set_eq using fin
    by (simp add: card_image card_insert_if)
  then show ?case
    by (simp add: Cons.IH)
qed

lemma half_gap:
  fixes s t :: nat
  assumes "0 < t" and "frac (100 * of_nat s / of_nat t :: rat) \<noteq> 1 / 2"
  shows "1 / (2 * of_nat t) \<le> \<bar>frac (100 * of_nat s / of_nat t :: rat) - 1 / 2\<bar>"
proof -
  define y :: rat where "y = 100 * of_nat s / of_nat t"
  define N :: int where "N = 200 * int s - 2 * int t * \<lfloor>y\<rfloor>"
  have tpos: "(0::rat) < of_nat t" using assms(1) by simp
  have "of_nat t * y = 100 * of_nat s" using tpos by (simp add: y_def)
  then have N: "of_int N = 2 * of_nat t * frac y"
    by (simp add: N_def frac_def algebra_simps)
  have "N \<noteq> int t"
  proof
    assume "N = int t"
    then have "(of_int N :: rat) = of_nat t" by simp
    with N tpos have "frac y = 1 / 2" by (simp add: field_simps)
    with assms(2) show False by (simp add: y_def)
  qed
  then have "1 \<le> \<bar>N - int t\<bar>" by linarith
  then have "(1::rat) \<le> \<bar>of_int (N - int t)\<bar>" by (simp only: of_int_abs [symmetric] of_int_1_le_iff)
  also have "of_int (N - int t) = 2 * of_nat t * (frac y - 1 / 2)"
    by (simp add: N algebra_simps)
  also have "\<bar>\<dots>\<bar> = 2 * of_nat t * \<bar>frac y - 1 / 2\<bar>"
    using tpos by (simp add: abs_mult)
  finally show ?thesis
    using tpos by (simp add: y_def field_simps)
qed

lemma round_of_close:
  fixes s t :: nat and x :: rat
  assumes t: "0 < t" "t < 2 ^ 32" and st: "s \<le> t"
    and close: "\<bar>x - 100 * of_nat s / of_nat t\<bar> \<le> 1 / 2 ^ 45"
  shows "frac (100 * of_nat s / of_nat t :: rat) \<noteq> 1 / 2 \<Longrightarrow>
           \<lfloor>x + 1 / 2\<rfloor> = \<lfloor>100 * of_nat s / of_nat t + 1 / 2 :: rat\<rfloor>"
    and "\<bar>of_int \<lfloor>x + 1 / 2\<rfloor> - 100 * of_nat s / of_nat t\<bar> \<le> (1 / 2 :: rat)"
    and "0 \<le> \<lfloor>x + 1 / 2\<rfloor>" and "\<lfloor>x + 1 / 2\<rfloor> \<le> 100"
proof -
  define y :: rat where "y = 100 * of_nat s / of_nat t"
  define j where "j = \<lfloor>y\<rfloor>"
  define f where "f = frac y"
  define d :: rat where "d = 1 / 2 ^ 45"
  define g :: rat where "g = 1 / 2 ^ 33"
  have dg: "0 < d" "d < g" "g < 1 / 2" by (simp_all add: d_def g_def)
  have y: "y = of_int j + f" by (simp add: j_def f_def frac_def)
  have f: "0 \<le> f" "f < 1" by (simp_all add: f_def frac_lt_1)
  from close have "\<bar>x - y\<bar> \<le> d" unfolding y_def d_def .
  then have cl: "x \<le> y + d" "y - d \<le> x" by linarith+
  have tpos: "(0::rat) < of_nat t" using t(1) by simp
  have y0: "0 \<le> y" by (simp add: y_def)
  have y100: "y \<le> 100" using st tpos by (simp add: y_def field_simps)
  have "(2 * of_nat t :: rat) < 2 ^ 33"
  proof -
    have "of_nat t < (of_nat (2 ^ 32) :: rat)" using t(2) by (simp only: of_nat_less_iff)
    then show ?thesis by simp
  qed
  then have gap: "g < 1 / (2 * of_nat t)"
    using tpos by (simp add: g_def field_simps)
  have fl_y: "\<lfloor>y + 1 / 2\<rfloor> = (if f < 1 / 2 then j else j + 1)"
  proof (cases "f < 1 / 2")
    case True
    then have "of_int j \<le> y + 1 / 2" "y + 1 / 2 < of_int j + 1" using f y by linarith+
    then have "\<lfloor>y + 1 / 2\<rfloor> = j" by (rule floor_unique)
    with True show ?thesis by simp
  next
    case False
    then have "of_int (j + 1) \<le> y + 1 / 2" "y + 1 / 2 < of_int (j + 1) + 1"
      using f y by (simp_all only: of_int_add of_int_1)
    then have "\<lfloor>y + 1 / 2\<rfloor> = j + 1" by (rule floor_unique)
    with False show ?thesis by simp
  qed
  have fl_lo: "\<lfloor>x + 1 / 2\<rfloor> = j" if "f < 1 / 2 - d \<or> (f = 1 / 2 \<and> x < y)"
  proof -
    have "of_int j \<le> x + 1 / 2" "x + 1 / 2 < of_int j + 1"
      using that f y cl dg by linarith+
    then show ?thesis by (rule floor_unique)
  qed
  have fl_hi: "\<lfloor>x + 1 / 2\<rfloor> = j + 1" if "1 / 2 + d \<le> f \<or> (f = 1 / 2 \<and> y \<le> x)"
  proof -
    have "of_int (j + 1) \<le> x + 1 / 2" "x + 1 / 2 < of_int (j + 1) + 1"
      using that f y cl dg by (simp_all only: of_int_add of_int_1) linarith+
    then show ?thesis by (rule floor_unique)
  qed
  have same: "\<lfloor>x + 1 / 2\<rfloor> = \<lfloor>y + 1 / 2\<rfloor>" if "f \<noteq> 1 / 2"
  proof -
    from that have "frac (100 * of_nat s / of_nat t :: rat) \<noteq> 1 / 2"
      unfolding f_def y_def .
    from half_gap [OF t(1) this] gap have far: "g < \<bar>f - 1 / 2\<bar>"
      unfolding f_def y_def by (rule less_le_trans [rotated])
    show ?thesis
    proof (cases "f < 1 / 2")
      case True
      with far dg have "f < 1 / 2 - d" by linarith
      then show ?thesis using fl_lo fl_y True by simp
    next
      case False
      with far dg have "1 / 2 + d \<le> f" by linarith
      then show ?thesis using fl_hi fl_y False by simp
    qed
  qed
  show "\<lfloor>x + 1 / 2\<rfloor> = \<lfloor>100 * of_nat s / of_nat t + 1 / 2 :: rat\<rfloor>"
    if "frac (100 * of_nat s / of_nat t :: rat) \<noteq> 1 / 2"
    using that same unfolding f_def y_def by blast
  have "\<bar>of_int \<lfloor>x + 1 / 2\<rfloor> - y\<bar> \<le> (1 / 2 :: rat)"
  proof (cases "f = 1 / 2")
    case True
    have "\<lfloor>x + 1 / 2\<rfloor> = j \<or> \<lfloor>x + 1 / 2\<rfloor> = j + 1"
      using fl_lo fl_hi True by (cases "x < y") simp_all
    then show ?thesis
    proof
      assume "\<lfloor>x + 1 / 2\<rfloor> = j"
      then show ?thesis using True y by simp
    next
      assume "\<lfloor>x + 1 / 2\<rfloor> = j + 1"
      then show ?thesis using True y by simp
    qed
  next
    case False
    then have "\<lfloor>x + 1 / 2\<rfloor> = \<lfloor>y + 1 / 2\<rfloor>" by (rule same)
    moreover have "\<bar>of_int \<lfloor>y + 1 / 2\<rfloor> - y\<bar> \<le> 1 / 2" by linarith
    ultimately show ?thesis by simp
  qed
  then show "\<bar>of_int \<lfloor>x + 1 / 2\<rfloor> - 100 * of_nat s / of_nat t\<bar> \<le> (1 / 2 :: rat)"
    unfolding y_def .
  have "0 \<le> x + 1 / 2" using y0 cl dg by linarith
  then show "0 \<le> \<lfloor>x + 1 / 2\<rfloor>" by (simp only: zero_le_floor)
  have "x + 1 / 2 < 101" using y100 cl dg by linarith
  then have "\<lfloor>x + 1 / 2\<rfloor> < 101" by (simp add: floor_less_iff)
  then show "\<lfloor>x + 1 / 2\<rfloor> \<le> 100" by simp
qed

section \<open>Properties of the transitions\<close>

lemma timers_fire_all:
  "(timerElapsed ^^ length (timers s)) s =
     (if timers s = [] then s
      else s\<lparr> currentQuestionIndex := last (timers s) + 1, showFeedback := False,
             timers := [] \<rparr>)"
proof (induction "timers s" arbitrary: s)
  case Nil
  then show ?case by (cases "timers s") simp_all
next
  case (Cons c cs)
  let ?s' = "timerElapsed s"
  from Cons.hyps(2) have ts: "timers s = c # cs" by simp
  then have s': "?s' = s\<lparr> timers := cs, currentQuestionIndex := c + 1, showFeedback := False \<rparr>"
    by (simp add: timerElapsed_def timeoutCallback_def)
  then have "cs = timers ?s'" by simp
  from Cons.hyps(1) [OF this]
  have ih: "(timerElapsed ^^ length (timers ?s')) ?s' =
     (if timers ?s' = [] then ?s'
      else ?s'\<lparr> currentQuestionIndex := last (timers ?s') + 1, showFeedback := False,
             timers := [] \<rparr>)" .
  have "(timerElapsed ^^ length (timers s)) s = (timerElapsed ^^ length cs) ?s'"
    by (simp add: ts funpow_swap1)
  also have "\<dots> = (timerElapsed ^^ length (timers ?s')) ?s'"
    by (simp add: s')
  finally show ?case
    using ih by (cases cs) (simp_all add: ts s')
qed

text \<open>
  C5. When a quiz is active and the index is that of its last question, \<open>handleNext\<close>
  copies the draft answers into the final answers and shows the result screen at once:
  no other field changes, so the feedback flag is not raised and no timer is scheduled.
\<close>

theorem advance_last_question:
  assumes "selectedQuiz s = Some quiz"
    and "currentQuestionIndex s = int (length (questions quiz)) - 1"
  shows "handleNext s = s\<lparr> userAnswers := selectedAnswers s, currentState := St_result \<rparr>
    \<and> userAnswers (handleNext s) = selectedAnswers s
    \<and> currentState (handleNext s) = St_result
    \<and> showFeedback (handleNext s) = showFeedback s
    \<and> timers (handleNext s) = timers s"
  using assms by (simp add: handleNext_def questionCount_def)

theorem advance_last_question_witness:
  "selectedQuiz (run [SelectQuiz quiz_one] initial) = Some quiz_one
   \<and> currentQuestionIndex (run [SelectQuiz quiz_one] initial)
       = int (length (questions quiz_one)) - 1
   \<and> currentState (handleNext (run [SelectQuiz quiz_one] initial)) = St_result
   \<and> userAnswers (handleNext (run [SelectQuiz quiz_one] initial)) = [Some '''']
   \<and> showFeedback (handleNext (run [SelectQuiz quiz_one] initial)) = False
   \<and> timers (handleNext (run [SelectQuiz quiz_one] initial)) = []"
proof -
  let ?s = "run [SelectQuiz quiz_one] initial"
  have a: "selectedQuiz ?s = Some quiz_one"
    by (simp add: handleQuizSelect_def)
  have b: "currentQuestionIndex ?s = int (length (questions quiz_one)) - 1"
    by (simp add: handleQuizSelect_def quiz_one_def)
  show ?thesis
    using advance_last_question [OF a b] a b
    by (simp add: handleQuizSelect_def quiz_one_def initial_def)
qed

text \<open>
  C6. For every quiz and every state, \<open>handleQuizSelect\<close> makes the quiz the active one,
  sets the index to 0, the draft answers to one empty string per question, empties the
  final answers, lowers the feedback flag and shows the question screen.
\<close>

theorem select_quiz_effects:
  "selectedQuiz (handleQuizSelect quiz s) = Some quiz
   \<and> currentQuestionIndex (handleQuizSelect quiz s) = 0
   \<and> selectedAnswers (handleQuizSelect quiz s) = replicate (length (questions quiz)) (Some '''')
   \<and> length (selectedAnswers (handleQuizSelect quiz s)) = length (questions quiz)
   \<and> userAnswers (handleQuizSelect quiz s) = []
   \<and> showFeedback (handleQuizSelect quiz s) = False
   \<and> currentState (handleQuizSelect quiz s) = St_question"
  by (simp add: handleQuizSelect_def)

text \<open>
  C7. For every state, \<open>handleBackToMenu\<close> shows the menu, drops the quiz, sets the index
  to 0, empties both answer lists and lowers the feedback flag; the theme is untouched,
  so a theme toggled before the reset stays toggled.
\<close>

theorem return_to_menu_effects:
  "currentState (handleBackToMenu s) = St_menu
   \<and> selectedQuiz (handleBackToMenu s) = None
   \<and> currentQuestionIndex (handleBackToMenu s) = 0
   \<and> selectedAnswers (handleBackToMenu s) = []
   \<and> userAnswers (handleBackToMenu s) = []
   \<and> showFeedback (handleBackToMenu s) = False
   \<and> isDark (handleBackToMenu s) = isDark s
   \<and> isDark (handleBackToMenu (toggleTheme s)) = (\<not> isDark s)"
  by (simp add: handleBackToMenu_def toggleTheme_def)

text \<open>
  C8. \<open>handlePrevious\<close> lowers the index by one and changes nothing else when the index
  is positive, and leaves the whole state as it is when the index is 0. The code does
  not look at the screen, so this holds on the question screen in particular.
\<close>

theorem retreat_effects:
  "(0 < currentQuestionIndex s \<longrightarrow>
      handlePrevious s = s\<lparr> currentQuestionIndex := currentQuestionIndex s - 1 \<rparr>)
   \<and> (currentQuestionIndex s = 0 \<longrightarrow> handlePrevious s = s)"
  by (simp add: handlePrevious_def)

theorem retreat_effects_witness:
  "0 < currentQuestionIndex (initial\<lparr> currentQuestionIndex := 1 \<rparr>)
   \<and> handlePrevious (initial\<lparr> currentQuestionIndex := 1 \<rparr>) = initial
   \<and> currentQuestionIndex initial = 0
   \<and> handlePrevious initial = initial"
  using retreat_effects [of "initial\<lparr> currentQuestionIndex := 1 \<rparr>"] retreat_effects [of initial]
  by (simp add: initial_def)

text \<open>
  C10. Without an active quiz the bound of \<open>handleNext\<close> is \<open>0 - 1\<close>, so for every index
  of the data model (0-based; \<open>-1\<close> would do as well) the call is not rejected and takes
  the branch of the last question: the final answers become the draft answers and the
  result screen is shown.
\<close>

theorem advance_without_quiz:
  assumes "selectedQuiz s = None" and "- 1 \<le> currentQuestionIndex s"
  shows "questionCount (selectedQuiz s) - 1 = - 1
    \<and> handleNext s = s\<lparr> userAnswers := selectedAnswers s, currentState := St_result \<rparr>
    \<and> userAnswers (handleNext s) = selectedAnswers s
    \<and> currentState (handleNext s) = St_result"
  using assms by (simp add: handleNext_def questionCount_def)

theorem advance_without_quiz_witness:
  "selectedQuiz initial = None \<and> - 1 \<le> currentQuestionIndex initial
   \<and> currentState (handleNext initial) = St_result
   \<and> userAnswers (handleNext initial) = []"
proof -
  have a: "selectedQuiz initial = None" by (simp add: initial_def)
  have b: "- 1 \<le> currentQuestionIndex initial" by (simp add: initial_def)
  show ?thesis using advance_without_quiz [OF a b] a b by (simp add: initial_def)
qed

lemma no_transition_cancels:
  "e \<noteq> TimerElapsed \<Longrightarrow> prefix (timers s) (timers (step e s))"
  by (cases e)
     (simp_all add: handleQuizSelect_def handleAnswerSelect_def handleNext_def
        handlePrevious_def handleBackToMenu_def toggleTheme_def)

text \<open>
  C2. When \<open>handleNext\<close> is called before the last question of the active quiz, the
  callback that captured the index joins the queue of pending timers. No handler removes
  or changes a pending timer: only its own elapsing takes it from the queue. So after
  \<open>handleBackToMenu\<close> or a new \<open>handleQuizSelect\<close>, once the timers pending so far have
  elapsed, the reset or freshly started session has the captured index plus one as its
  index and a lowered feedback flag, its other fields being those the handler set.
\<close>

theorem pending_continuation_survives:
  assumes "selectedQuiz s = Some quiz"
    and "currentQuestionIndex s < int (length (questions quiz)) - 1"
  shows "timers (handleNext s) = timers s @ [currentQuestionIndex s]
    \<and> (\<forall>e s'. e \<noteq> TimerElapsed \<longrightarrow> prefix (timers s') (timers (step e s')))
    \<and> (timerElapsed ^^ Suc (length (timers s))) (handleBackToMenu (handleNext s))
        = (handleBackToMenu (handleNext s))
            \<lparr> currentQuestionIndex := currentQuestionIndex s + 1, showFeedback := False,
              timers := [] \<rparr>
    \<and> (timerElapsed ^^ Suc (length (timers s))) (handleQuizSelect quiz' (handleNext s))
        = (handleQuizSelect quiz' (handleNext s))
            \<lparr> currentQuestionIndex := currentQuestionIndex s + 1, showFeedback := False,
              timers := [] \<rparr>"
proof -
  have next_timers: "timers (handleNext s) = timers s @ [currentQuestionIndex s]"
    using assms by (simp add: handleNext_def questionCount_def)
  have fire: "(timerElapsed ^^ Suc (length (timers s))) t
        = t\<lparr> currentQuestionIndex := currentQuestionIndex s + 1, showFeedback := False,
             timers := [] \<rparr>"
    if "timers t = timers s @ [currentQuestionIndex s]" for t
  proof -
    from that have len: "Suc (length (timers s)) = length (timers t)" by simp
    show ?thesis
      unfolding len timers_fire_all [of t]
      by (simp add: that)
  qed
  have "timers (handleBackToMenu (handleNext s)) = timers s @ [currentQuestionIndex s]"
    using next_timers by (simp add: handleBackToMenu_def)
  moreover have "timers (handleQuizSelect quiz' (handleNext s)) = timers s @ [currentQuestionIndex s]"
    using next_timers by (simp add: handleQuizSelect_def)
  ultimately show ?thesis
    using next_timers no_transition_cancels by (simp only: fire) blast
qed

theorem pending_continuation_survives_witness:
  "selectedQuiz (handleQuizSelect quiz_two initial) = Some quiz_two
   \<and> currentQuestionIndex (handleQuizSelect quiz_two initial) < int (length (questions quiz_two)) - 1
   \<and> timers (handleNext (handleQuizSelect quiz_two initial)) = [0]
   \<and> timerElapsed (handleBackToMenu (handleNext (handleQuizSelect quiz_two initial)))
       = initial\<lparr> currentQuestionIndex := 1 \<rparr>
   \<and> timerElapsed (handleQuizSelect quiz_one (handleNext (handleQuizSelect quiz_two initial)))
       = \<lparr> currentState = St_question, selectedQuiz = Some quiz_one, isDark = True,
           currentQuestionIndex = 1, selectedAnswers = [Some ''''], userAnswers = [],
           showFeedback = False, timers = [] \<rparr>"
proof -
  let ?s = "handleQuizSelect quiz_two initial"
  have a: "selectedQuiz ?s = Some quiz_two"
    by (simp add: handleQuizSelect_def)
  have b: "currentQuestionIndex ?s < int (length (questions quiz_two)) - 1"
    by (simp add: handleQuizSelect_def quiz_two_def)
  have c: "timers ?s = []" "currentQuestionIndex ?s = 0"
    by (simp_all add: handleQuizSelect_def initial_def)
  show ?thesis
    using pending_continuation_survives [OF a b, of quiz_one] a b
    by (simp add: c)
       (simp add: handleQuizSelect_def handleBackToMenu_def handleNext_def questionCount_def
          quiz_two_def quiz_one_def initial_def)
qed

text \<open>
  C1. The invariant is lost when a timer outlives the quiz run that scheduled it: with a
  quiz of two questions and a quiz of one, select the first, call \<open>handleNext\<close> on its
  first question, go back to the menu and select the second quiz before the timer
  elapses. When it elapses the question screen is shown for the quiz of one question
  with index 1.
\<close>

theorem stale_timer_breaks_invariant:
  "currentState (run [SelectQuiz quiz_two, Next, BackToMenu, SelectQuiz quiz_one, TimerElapsed] initial)
     = St_question
   \<and> selectedQuiz (run [SelectQuiz quiz_two, Next, BackToMenu, SelectQuiz quiz_one, TimerElapsed] initial)
     = Some quiz_one
   \<and> currentQuestionIndex (run [SelectQuiz quiz_two, Next, BackToMenu, SelectQuiz quiz_one, TimerElapsed] initial)
     = 1
   \<and> length (questions quiz_one) = 1
   \<and> \<not> session_inv (run [SelectQuiz quiz_two, Next, BackToMenu, SelectQuiz quiz_one, TimerElapsed] initial)"
  by (simp add: handleQuizSelect_def handleBackToMenu_def handleNext_def questionCount_def
        timerElapsed_def timeoutCallback_def session_inv_def quiz_two_def quiz_one_def initial_def)

text \<open>
  The stale timer needs a shorter quiz to break the invariant: when every selected quiz
  has the same positive number of questions, the invariant holds after every run from
  the initial state, timers included.
\<close>

lemma step_run_inv:
  assumes "0 < n" and "selects_length n e" and "run_inv n s"
  shows "run_inv n (step e s)"
proof (cases e)
  case (SelectQuiz quiz)
  with assms show ?thesis
    by (simp add: run_inv_def selects_length_def handleQuizSelect_def)
next
  case (SelectAnswer a)
  with assms show ?thesis by (simp add: run_inv_def handleAnswerSelect_def)
next
  case Next
  with assms show ?thesis
    by (auto simp: run_inv_def handleNext_def questionCount_def split: option.splits)
next
  case Previous
  with assms show ?thesis by (auto simp: run_inv_def handlePrevious_def)
next
  case BackToMenu
  with assms show ?thesis by (simp add: run_inv_def handleBackToMenu_def)
next
  case ToggleTheme
  with assms show ?thesis by (simp add: run_inv_def toggleTheme_def)
next
  case TimerElapsed
  with assms show ?thesis
    by (cases "timers s") (auto simp: run_inv_def timerElapsed_def timeoutCallback_def)
qed

lemma run_run_inv:
  "0 < n \<Longrightarrow> list_all (selects_length n) es \<Longrightarrow> run_inv n s \<Longrightarrow> run_inv n (run es s)"
  by (induction es arbitrary: s) (simp_all add: step_run_inv)

lemma session_inv_equal_lengths:
  assumes "0 < n" and "list_all (selects_length n) es"
  shows "session_inv (run es initial)"
proof -
  have "run_inv n initial" by (simp add: run_inv_def initial_def)
  from run_run_inv [OF assms this] show ?thesis
    by (auto simp: run_inv_def session_inv_def split: option.splits)
qed

section \<open>Properties of the store read\<close>

text \<open>
  C9. For every key and default, the read gives a value and never an error; it gives
  the default when the key is absent, when the stored text does not parse, and when
  reading the store itself fails.
\<close>

theorem storage_read_falls_back:
  "(\<exists>v. useLocalStorage_init parse getItem key initialValue = Inr v)
   \<and> (getItem key = Inr None \<longrightarrow>
        useLocalStorage_init parse getItem key initialValue = Inr initialValue)
   \<and> (\<forall>item err. getItem key = Inr (Some item) \<and> parse item = Inl err \<longrightarrow>
        useLocalStorage_init parse getItem key initialValue = Inr initialValue)
   \<and> (\<forall>err. getItem key = Inl err \<longrightarrow>
        useLocalStorage_init parse getItem key initialValue = Inr initialValue)"
  by (auto simp: useLocalStorage_init_def try_catch_def readItem_def
        split: sum.splits option.splits)

theorem storage_read_falls_back_witness:
  "sample_getItem ''quiz-current-question'' = Inr None
   \<and> useLocalStorage_init sample_parse sample_getItem ''quiz-current-question'' False = Inr False
   \<and> sample_getItem ''quiz-theme'' = Inr (Some ''{tru'')
   \<and> sample_parse ''{tru'' = Inl SyntaxError
   \<and> useLocalStorage_init sample_parse sample_getItem ''quiz-theme'' True = Inr True"
proof -
  have a: "sample_getItem ''quiz-current-question'' = Inr None"
    by (simp add: sample_getItem_def)
  have b: "sample_getItem ''quiz-theme'' = Inr (Some ''{tru'')"
    by (simp add: sample_getItem_def)
  have c: "sample_parse ''{tru'' = Inl SyntaxError"
    by (simp add: sample_parse_def)
  show ?thesis
    using storage_read_falls_back [of sample_parse sample_getItem "''quiz-current-question''" False]
      storage_read_falls_back [of sample_parse sample_getItem "''quiz-theme''" True]
      a b c
    by blast
qed

section \<open>Properties of the scoring\<close>

lemma calculateScore_card:
  "calculateScore quiz ua =
     card {i. i < length (questions quiz) \<and> array_get ua i = Some (answer (questions quiz ! i))}"
proof (cases "length ua = 0")
  case True
  then have "array_get ua i = None" for i by (simp add: array_get_def)
  then show ?thesis using True by (simp add: calculateScore_def)
next
  case False
  then show ?thesis
    using forEach_count_card [of "questions quiz" 0 ua 0] by (simp add: calculateScore_def)
qed

lemma calculateScore_le: "calculateScore quiz ua \<le> totalQuestions quiz"
proof -
  have "card {i. i < length (questions quiz) \<and> array_get ua i = Some (answer (questions quiz ! i))}
      \<le> card {..<length (questions quiz)}"
    by (rule card_mono) auto
  then show ?thesis by (simp add: calculateScore_card totalQuestions_def)
qed

lemma percentage_value:
  assumes "0 < totalQuestions quiz"
  shows "percentage quiz ua =
     Fin (of_int \<lfloor>round53 (round53 (of_nat (calculateScore quiz ua) / of_nat (totalQuestions quiz)) * 100)
                   + 1 / 2\<rfloor>)"
  using assms by (simp add: percentage_def js_divide_def js_times100_def Math_round_def)

text \<open>
  C3. For every quiz and every answer list, \<open>calculateScore\<close> is the number of indices of
  the quiz's questions at which the answer list holds a string equal to the question's
  answer. For a quiz with questions (fewer than \<open>2 ^ 32\<close>, as in any JavaScript array)
  the percentage is \<open>100 * correct / total\<close> rounded to the nearest integer whenever that
  value is not exactly halfway between two integers.
\<close>

theorem score_counts_matches:
  "calculateScore quiz ua =
     card {i. i < length (questions quiz) \<and> array_get ua i = Some (answer (questions quiz ! i))}
   \<and> totalQuestions quiz = length (questions quiz)
   \<and> (0 < totalQuestions quiz \<and> totalQuestions quiz < 2 ^ 32
        \<and> frac (100 * of_nat (calculateScore quiz ua) / of_nat (totalQuestions quiz) :: rat) \<noteq> 1 / 2
      \<longrightarrow> percentage quiz ua =
            Fin (of_int \<lfloor>100 * of_nat (calculateScore quiz ua) / of_nat (totalQuestions quiz) + 1 / 2 :: rat\<rfloor>))"
proof -
  have "percentage quiz ua =
      Fin (of_int \<lfloor>100 * of_nat (calculateScore quiz ua) / of_nat (totalQuestions quiz) + 1 / 2 :: rat\<rfloor>)"
    if t: "0 < totalQuestions quiz" "totalQuestions quiz < 2 ^ 32"
      and nt: "frac (100 * of_nat (calculateScore quiz ua) / of_nat (totalQuestions quiz) :: rat) \<noteq> 1 / 2"
  proof -
    note le = calculateScore_le [of quiz ua]
    note close = product_close [OF t(1) le]
    from round_of_close(1) [OF t le close nt] show ?thesis
      by (simp only: percentage_value [OF t(1)])
  qed
  then show ?thesis
    by (simp only: calculateScore_card [symmetric] totalQuestions_def) blast
qed

theorem score_counts_matches_witness:
  "0 < totalQuestions quiz_two \<and> totalQuestions quiz_two < 2 ^ 32
   \<and> frac (100 * of_nat (calculateScore quiz_two [Some ''B'', Some ''A''])
             / of_nat (totalQuestions quiz_two) :: rat) \<noteq> 1 / 2
   \<and> calculateScore quiz_two [Some ''B'', Some ''A''] = 1
   \<and> card {i. i < length (questions quiz_two)
             \<and> array_get [Some ''B'', Some ''A''] i = Some (answer (questions quiz_two ! i))} = 1
   \<and> percentage quiz_two [Some ''B'', Some ''A''] = Fin 50"
proof -
  have cs: "calculateScore quiz_two [Some ''B'', Some ''A''] = 1"
    by (simp add: calculateScore_def quiz_two_def q_B_def array_get_def)
  have tq: "totalQuestions quiz_two = 2"
    by (simp add: totalQuestions_def quiz_two_def)
  have h: "0 < totalQuestions quiz_two \<and> totalQuestions quiz_two < 2 ^ 32
     \<and> frac (100 * of_nat (calculateScore quiz_two [Some ''B'', Some ''A''])
             / of_nat (totalQuestions quiz_two) :: rat) \<noteq> 1 / 2"
    by (simp add: cs tq frac_def)
  note counts = score_counts_matches [of quiz_two "[Some ''B'', Some ''A'']"]
  from counts have c: "card {i. i < length (questions quiz_two)
      \<and> array_get [Some ''B'', Some ''A''] i = Some (answer (questions quiz_two ! i))}
    = calculateScore quiz_two [Some ''B'', Some ''A'']"
    by simp
  from counts h have "percentage quiz_two [Some ''B'', Some ''A''] =
      Fin (of_int \<lfloor>100 * of_nat (calculateScore quiz_two [Some ''B'', Some ''A''])
                     / of_nat (totalQuestions quiz_two) + 1 / 2 :: rat\<rfloor>)"
    by blast
  also have "\<dots> = Fin 50"
  proof -
    have "\<lfloor>101 / 2 :: rat\<rfloor> = 50" by (rule floor_unique) simp_all
    then show ?thesis by (simp add: cs tq)
  qed
  finally have p: "percentage quiz_two [Some ''B'', Some ''A''] = Fin 50" .
  from h c p show ?thesis
    by (simp only: cs) simp
qed

lemma score_forty: "calculateScore quiz_forty answers_23 = 23"
  by code_simp

lemma total_forty: "totalQuestions quiz_forty = 40"
  by (simp add: totalQuestions_def quiz_forty_def)

lemma round_23_of_40: "Math_round (js_times100 (js_divide 23 40)) = Fin 57"
  by code_simp

text \<open>
  With 23 right answers out of 40 the exact percentage is 57.5, which rounds half up to
  58; the double nearest to 23/40, times 100, is a double just below 57.5, and the
  screen shows 57.
\<close>

theorem half_percentage_rounds_down:
  "calculateScore quiz_forty answers_23 = 23
   \<and> totalQuestions quiz_forty = 40
   \<and> percentage quiz_forty answers_23 = Fin 57
   \<and> \<lfloor>of_nat (calculateScore quiz_forty answers_23) / of_nat (totalQuestions quiz_forty) * 100
        + 1 / 2 :: rat\<rfloor> = 58"
  by (simp add: percentage_def score_forty total_forty round_23_of_40)

text \<open>
  C4. The results screen has no guard for a quiz without questions: it divides 0 by 0,
  which throws nothing and gives \<open>NaN\<close>, and the percentage is \<open>NaN\<close>. For a quiz with
  questions (fewer than \<open>2 ^ 32\<close>) the percentage is an integer from 0 to 100 at most
  one half away from \<open>100 * correct / total\<close>.
\<close>

theorem percentage_empty_and_nonempty:
  "(totalQuestions quiz = 0 \<longrightarrow> calculateScore quiz ua = 0 \<and> percentage quiz ua = NaN)
   \<and> (0 < totalQuestions quiz \<and> totalQuestions quiz < 2 ^ 32 \<longrightarrow>
        (\<exists>n. percentage quiz ua = Fin (of_int n) \<and> 0 \<le> n \<and> n \<le> 100
           \<and> \<bar>of_int n - 100 * of_nat (calculateScore quiz ua) / of_nat (totalQuestions quiz)\<bar>
               \<le> (1 / 2 :: rat)))"
proof -
  have "calculateScore quiz ua = 0 \<and> percentage quiz ua = NaN" if "totalQuestions quiz = 0"
  proof -
    from that calculateScore_le [of quiz ua] have "calculateScore quiz ua = 0" by simp
    with that show ?thesis by (simp add: percentage_def js_divide_def js_times100_def Math_round_def)
  qed
  moreover have "\<exists>n. percentage quiz ua = Fin (of_int n) \<and> 0 \<le> n \<and> n \<le> 100
           \<and> \<bar>of_int n - 100 * of_nat (calculateScore quiz ua) / of_nat (totalQuestions quiz)\<bar>
               \<le> (1 / 2 :: rat)"
    if t: "0 < totalQuestions quiz" "totalQuestions quiz < 2 ^ 32"
  proof -
    note le = calculateScore_le [of quiz ua]
    note close = product_close [OF t(1) le]
    note r = round_of_close(2-4) [OF t le close]
    show ?thesis
      using r percentage_value [OF t(1), of ua] by blast
  qed
  ultimately show ?thesis by blast
qed

theorem percentage_empty_and_nonempty_witness:
  "totalQuestions quiz_empty = 0
   \<and> percentage quiz_empty [Some ''B''] = NaN
   \<and> 0 < totalQuestions quiz_two \<and> totalQuestions quiz_two < 2 ^ 32
   \<and> (\<exists>n. percentage quiz_two [Some ''B'', Some ''A''] = Fin (of_int n) \<and> 0 \<le> n \<and> n \<le> 100
         \<and> \<bar>of_int n - 100 * of_nat (calculateScore quiz_two [Some ''B'', Some ''A''])
                          / of_nat (totalQuestions quiz_two)\<bar> \<le> (1 / 2 :: rat))"
proof -
  have a: "totalQuestions quiz_empty = 0"
    by (simp add: totalQuestions_def quiz_empty_def)
  have b: "0 < totalQuestions quiz_two \<and> totalQuestions quiz_two < 2 ^ 32"
    by (simp add: totalQuestions_def quiz_two_def)
  show ?thesis
    using percentage_empty_and_nonempty [of quiz_empty "[Some ''B'']"]
      percentage_empty_and_nonempty [of quiz_two "[Some ''B'', Some ''A'']"] a b
    by blast
qed

text \<open>For the quiz without questions the percentage is \<open>NaN\<close>, not 0.\<close>

theorem percentage_of_empty_quiz_is_NaN:
  "totalQuestions quiz_empty = 0
   \<and> percentage quiz_empty [] = NaN
   \<and> percentage quiz_empty [] \<noteq> Fin 0"
  by (simp add: percentage_def js_divide_def js_times100_def Math_round_def
        calculateScore_def totalQuestions_def quiz_empty_def)

end
